theory Spec2Isabelle
  imports Main "HOL-Library.Word"
begin

unbundle bit_operations_syntax

section \<open>The Go data the hook works on\<close>

subsection \<open>Slices of strings and their backing arrays\<close>

text \<open>
  A Go slice is a header (data pointer, length, capacity) over a backing array that other
  slices may share. \<open>hook.tags\<close> appends to the slice stored in the configuration, so the
  backing arrays are kept in an explicit heap: array number \<open>a\<close> is \<open>H ! a\<close>, and a new
  array gets the number \<open>length H\<close>. The data pointer is \<open>Null\<close> for the nil slice,
  \<open>Zerobase\<close> for the empty composite literal \<open>[]T{}\<close> (non-nil, nothing behind it),
  and \<open>Array a\<close> with an offset otherwise.
\<close>

type_synonym addr = nat

type_synonym heap = "string list list"

datatype pointer = Null | Zerobase | Array addr

record slice =
  ptr :: pointer
  off :: nat
  len :: nat
  cap :: nat

definition nil_slice :: slice where
  "nil_slice = \<lparr>ptr = Null, off = 0, len = 0, cap = 0\<rparr>"

definition empty_literal :: slice where
  "empty_literal = \<lparr>ptr = Zerobase, off = 0, len = 0, cap = 0\<rparr>"

text \<open>\<open>s == nil\<close> on a slice compares the data pointer.\<close>

definition is_nil :: "slice \<Rightarrow> bool" where
  "is_nil s = (ptr s = Null)"

text \<open>The elements \<open>s[0], ..., s[len(s)-1]\<close> as the heap has them.\<close>

definition elems :: "heap \<Rightarrow> slice \<Rightarrow> string list" where
  "elems H s = (case ptr s of
       Array a \<Rightarrow> take (len s) (drop (off s) (H ! a))
     | _ \<Rightarrow> [])"

text \<open>The invariant the Go runtime keeps for every slice value.\<close>

definition wf_slice :: "heap \<Rightarrow> slice \<Rightarrow> bool" where
  "wf_slice H s = (len s \<le> cap s \<and> (case ptr s of
       Array a \<Rightarrow> a < length H \<and> off s + cap s \<le> length (H ! a)
     | _ \<Rightarrow> cap s = 0))"

definition write_at :: "string list \<Rightarrow> nat \<Rightarrow> string list \<Rightarrow> string list" where
  "write_at xs i vs = take i xs @ vs @ drop (i + length vs) xs"

text \<open>
  The builtin \<open>append(s, t...)\<close>, where \<open>vs\<close> are the elements of \<open>t\<close> read before
  anything is written (the runtime copies with memmove, so an overlapping \<open>t\<close> is read
  first). With room in the backing array the elements are written in place behind
  \<open>s\<close> and only the length of the returned header grows; otherwise a new array is
  allocated, of a capacity that the runtime chooses (\<open>growcap oldcap needed\<close>, never
  less than what is needed), the old elements are copied and the rest is zeroed.
\<close>

definition go_append :: "(nat \<Rightarrow> nat \<Rightarrow> nat) \<Rightarrow> heap \<Rightarrow> slice \<Rightarrow> string list \<Rightarrow> slice \<times> heap" where
  "go_append growcap H s vs =
     (let n = len s + length vs in
      if n \<le> cap s then
        (case ptr s of
           Array a \<Rightarrow> (s\<lparr>len := n\<rparr>, H[a := write_at (H ! a) (off s + len s) vs])
         | _ \<Rightarrow> (s, H))
      else
        (let c = max n (growcap (cap s) n) in
         (\<lparr>ptr = Array (length H), off = 0, len = n, cap = c\<rparr>,
          H @ [elems H s @ vs @ replicate (c - n) []])))"

subsection \<open>Field values of a log entry\<close>

text \<open>
  \<open>logrus.Fields\<close> is \<open>map[string]interface{}\<close>. The dynamic types the hook asserts
  on are \<open>string\<close>, \<open>[]string\<close>, \<open>alertsv2.Priority\<close> (a named string type, so a plain
  string is not one) and \<open>error\<close>. \<open>VError t\<close> is a non-nil error whose \<open>Error()\<close>
  returns \<open>t\<close>; \<open>VNil\<close> is the nil interface; \<open>VOther r\<close> is a value of any other type,
  with its \<open>%v\<close> rendering \<open>r\<close>.
\<close>

datatype val =
    VNil
  | VString string
  | VInt int
  | VStrings slice
  | VPriority string
  | VError string
  | VOther string

record Entry =
  Message :: string
  Data :: "string \<rightharpoonup> val"

subsection \<open>Constants\<close>

definition EndpointEU :: string where
  "EndpointEU = ''https://api.eu.opsgenie.com''"

definition EndpointUS :: string where
  "EndpointUS = ''https://api.opsgenie.com''"

definition OverridePrefix :: string where
  "OverridePrefix = ''ogh:''"

definition OverrideAlias :: string where
  "OverrideAlias = OverridePrefix @ ''alias''"

definition OverrideSource :: string where
  "OverrideSource = OverridePrefix @ ''source''"

definition OverrideTags :: string where
  "OverrideTags = OverridePrefix @ ''tags''"

definition OverrideEntity :: string where
  "OverrideEntity = OverridePrefix @ ''entity''"

definition OverridePriority :: string where
  "OverridePriority = OverridePrefix @ ''priority''"

text \<open>The priorities of the SDK: \<open>type Priority string\<close> with the constants \<open>P1\<close> to \<open>P5\<close>.\<close>

definition P1 :: string where "P1 = ''P1''"
definition P2 :: string where "P2 = ''P2''"
definition P3 :: string where "P3 = ''P3''"
definition P4 :: string where "P4 = ''P4''"
definition P5 :: string where "P5 = ''P5''"

section \<open>Configuration\<close>

text \<open>
  \<open>DefaultTeams\<close> is only ever read, so it is kept by value: \<open>None\<close> is the nil slice and
  \<open>Some ts\<close> a non-nil slice with the elements \<open>ts\<close>. The SDK's \<open>Team\<close> struct is a type
  parameter. \<open>DefaultTags\<close> is a slice header into the heap.
\<close>

record 'team HookConfig =
  DefaultTeams :: "'team list option"
  DefaultTags :: slice
  DefaultEntity :: string
  DefaultSource :: string
  DefaultPriority :: string

text \<open>
  The errors \<open>NewHook\<close> can return: the ones this package makes with \<open>fmt.Errorf\<close>, and
  whatever the SDK's client constructor returns.
\<close>

datatype 'e error = Errorf string | ClientError 'e

definition isValidPriority :: "string \<Rightarrow> bool" where
  "isValidPriority priority =
     (priority = P1 \<or> priority = P2 \<or> priority = P3 \<or> priority = P4 \<or> priority = P5)"

text \<open>
  \<open>Validate\<close> has a pointer receiver: it updates the configuration in place and returns an
  error or nil. The model returns both the error and the configuration as it is left.
\<close>

definition Validate :: "'team HookConfig \<Rightarrow> 'e error option \<times> 'team HookConfig" where
  "Validate c =
     (let c1 = (if DefaultTeams c = None then c\<lparr>DefaultTeams := Some []\<rparr> else c);
          c2 = (if is_nil (DefaultTags c1) then c1\<lparr>DefaultTags := empty_literal\<rparr> else c1);
          c3 = (if DefaultPriority c2 = [] then c2\<lparr>DefaultPriority := P3\<rparr> else c2)
      in if \<not> isValidPriority (DefaultPriority c3)
         then (Some (Errorf ''invalid priority''), c3)
         else (None, c3))"

record ('client, 'team) hook =
  client :: 'client
  config :: "'team HookConfig"


section \<open>Library functions the hook calls\<close>

subsection \<open>\<open>hash/crc32\<close>\<close>

text \<open>
  \<open>crc32.ChecksumIEEE\<close> in the form of the standard library's portable implementation:
  a table of 256 entries made from the reversed IEEE polynomial, and one table step per
  byte between the two complements.
\<close>

type_synonym uint32 = "32 word"

definition IEEE :: uint32 where
  "IEEE = 0xedb88320"

definition crc_shift :: "uint32 \<Rightarrow> uint32 \<Rightarrow> uint32" where
  "crc_shift poly crc =
     (if crc AND 1 = 1 then drop_bit 1 crc XOR poly else drop_bit 1 crc)"

definition simpleMakeTable :: "uint32 \<Rightarrow> 8 word \<Rightarrow> uint32" where
  "simpleMakeTable poly i = (crc_shift poly ^^ 8) (ucast i)"

text \<open>The body of the loop over the bytes: \<open>crc = tab[byte(crc)^v] ^ (crc >> 8)\<close>.\<close>

definition update_byte :: "(8 word \<Rightarrow> uint32) \<Rightarrow> uint32 \<Rightarrow> 8 word \<Rightarrow> uint32" where
  "update_byte tab crc v = tab (ucast crc XOR v) XOR drop_bit 8 crc"

definition simpleUpdate :: "uint32 \<Rightarrow> (8 word \<Rightarrow> uint32) \<Rightarrow> 8 word list \<Rightarrow> uint32" where
  "simpleUpdate crc tab p = NOT (fold (\<lambda>v crc. update_byte tab crc v) p (NOT crc))"

definition ChecksumIEEE :: "8 word list \<Rightarrow> uint32" where
  "ChecksumIEEE data = simpleUpdate 0 (simpleMakeTable IEEE) data"

text \<open>\<open>[]byte(s)\<close>: a Go string is its bytes, as an Isabelle string is.\<close>

definition bytes :: "string \<Rightarrow> 8 word list" where
  "bytes s = map (\<lambda>c. of_nat (of_char c)) s"

subsection \<open>\<open>strconv\<close> and \<open>strings\<close>\<close>

definition digits :: string where
  "digits = ''0123456789abcdefghijklmnopqrstuvwxyz''"

text \<open>
  \<open>strconv.FormatUint(u, base)\<close>, meant for the bases from 2 to 36: on any other base
  the library panics. The hook calls it with base 16, and \<open>%v\<close> prints integers in
  base 10.
\<close>

function formatBits :: "nat \<Rightarrow> nat \<Rightarrow> string" where
  "formatBits u b =
     (if b < 2 \<or> u < b then [digits ! u]
      else formatBits (u div b) b @ [digits ! (u mod b)])"
  by pat_completeness auto
termination
  by (relation "measure (\<lambda>(u, b). u)") auto

declare formatBits.simps [simp del]

definition FormatUint :: "nat \<Rightarrow> nat \<Rightarrow> string" where
  "FormatUint u b = formatBits u b"

definition HasPrefix :: "string \<Rightarrow> string \<Rightarrow> bool" where
  "HasPrefix s pre = (length pre \<le> length s \<and> take (length pre) s = pre)"

subsection \<open>\<open>fmt\<close>\<close>

definition Itoa :: "int \<Rightarrow> string" where
  "Itoa i = (if i < 0 then CHR ''-'' # formatBits (nat (- i)) 10 else formatBits (nat i) 10)"

fun join :: "string \<Rightarrow> string list \<Rightarrow> string" where
  "join sep [] = []"
| "join sep [x] = x"
| "join sep (x # y # ys) = x @ sep @ join sep (y # ys)"

text \<open>
  \<open>fmt.Sprintf("%v", value)\<close> for the values of the model: strings and named strings as
  they are, an error by its \<open>Error()\<close>, a slice as \<open>[a b c]\<close>, the nil interface as
  \<open><nil>\<close>.
\<close>

fun Sprintf_v :: "heap \<Rightarrow> val \<Rightarrow> string" where
  "Sprintf_v H VNil = ''<nil>''"
| "Sprintf_v H (VString s) = s"
| "Sprintf_v H (VInt i) = Itoa i"
| "Sprintf_v H (VStrings sl) = ''['' @ join '' '' (elems H sl) @ '']''"
| "Sprintf_v H (VPriority p) = p"
| "Sprintf_v H (VError t) = t"
| "Sprintf_v H (VOther r) = r"

section \<open>The hook\<close>

text \<open>
  The request the hook hands to the SDK. \<open>Teams\<close> is a list of \<open>TeamRecipient\<close>
  interfaces, each holding a \<open>*Team\<close>: an address in the store of \<open>Team\<close> variables.
\<close>

record CreateAlertRequest =
  Message_r :: string
  Alias :: string
  Description :: string
  Teams :: "addr list"
  Tags :: slice
  Details :: "string \<rightharpoonup> string"
  Entity :: string
  Source :: string
  Priority :: string

text \<open>
  What a call can change: the backing arrays of string slices, and the \<open>Team\<close> variables
  that have had their address taken (\<open>nextvar\<close> is the next free address).
\<close>

record 'team state =
  arrays :: heap
  vars :: "addr \<rightharpoonup> 'team"
  nextvar :: addr

text \<open>\<open>hook.alias\<close> (\<open>alias\<close> alone is a command of Isabelle).\<close>

definition alias_hook :: "Entry \<Rightarrow> string" where
  "alias_hook entry =
     (case Data entry OverrideAlias of
        Some (VString aliasOverride) \<Rightarrow> aliasOverride
      | _ \<Rightarrow> FormatUint (unat (ChecksumIEEE (bytes (Message entry)))) 16)"

definition description :: "Entry \<Rightarrow> string" where
  "description entry =
     (case Data entry ''error'' of
        Some (VError errValue) \<Rightarrow> Message entry @ ''\<newline>'' @ errValue
      | _ \<Rightarrow> Message entry)"

text \<open>
  \<open>for _, team := range h.config.DefaultTeams { teams = append(teams, &team) }\<close>.
  The module declares no Go version, so the loop has the semantics of Go before 1.22:
  \<open>team\<close> is one variable for the whole loop, at the address \<open>p\<close>; every iteration
  assigns the next element to it and appends the same \<open>p\<close>. The slice \<open>teams\<close> starts
  from a fresh literal and is local, so it is a list.
\<close>

fun teams_loop :: "addr \<Rightarrow> 'team list \<Rightarrow> addr list \<Rightarrow> (addr \<rightharpoonup> 'team)
    \<Rightarrow> addr list \<times> (addr \<rightharpoonup> 'team)" where
  "teams_loop p [] teams V = (teams, V)"
| "teams_loop p (team # rest) teams V = teams_loop p rest (teams @ [p]) (V(p \<mapsto> team))"

definition teams :: "'team state \<Rightarrow> ('client, 'team) hook \<Rightarrow> addr list \<times> 'team state" where
  "teams st h =
     (let p = nextvar st;
          (ts, V) = teams_loop p (case DefaultTeams (config h) of None \<Rightarrow> [] | Some xs \<Rightarrow> xs)
                      [] (vars st)
      in (ts, st\<lparr>vars := V, nextvar := Suc p\<rparr>))"

definition tags :: "(nat \<Rightarrow> nat \<Rightarrow> nat) \<Rightarrow> heap \<Rightarrow> ('client, 'team) hook \<Rightarrow> Entry \<Rightarrow> slice \<times> heap" where
  "tags growcap H h entry =
     (let tags = DefaultTags (config h) in
      case Data entry OverrideTags of
        Some (VStrings tagsOverride) \<Rightarrow> go_append growcap H tags (elems H tagsOverride)
      | _ \<Rightarrow> (tags, H))"

text \<open>
  \<open>range entry.Data\<close> visits every key of the map once, in an order \<open>ks\<close> that the
  runtime picks.
\<close>

fun details_loop :: "heap \<Rightarrow> Entry \<Rightarrow> string list \<Rightarrow> (string \<rightharpoonup> string) \<Rightarrow> (string \<rightharpoonup> string)" where
  "details_loop H entry [] details = details"
| "details_loop H entry (key # ks) details =
     (if HasPrefix key OverridePrefix then details_loop H entry ks details
      else (case Data entry key of
              Some v \<Rightarrow> details_loop H entry ks (details(key \<mapsto> Sprintf_v H v))
            | None \<Rightarrow> details_loop H entry ks details))"

definition details :: "heap \<Rightarrow> string list \<Rightarrow> Entry \<Rightarrow> (string \<rightharpoonup> string)" where
  "details H ks entry = details_loop H entry ks Map.empty"

definition entity :: "('client, 'team) hook \<Rightarrow> Entry \<Rightarrow> string" where
  "entity h entry =
     (case Data entry OverrideEntity of
        Some (VString entityOverride) \<Rightarrow> entityOverride
      | _ \<Rightarrow> DefaultEntity (config h))"

definition source :: "('client, 'team) hook \<Rightarrow> Entry \<Rightarrow> string" where
  "source h entry =
     (case Data entry OverrideSource of
        Some (VString sourceOverride) \<Rightarrow> sourceOverride
      | _ \<Rightarrow> DefaultSource (config h))"

definition priority :: "('client, 'team) hook \<Rightarrow> Entry \<Rightarrow> string" where
  "priority h entry =
     (case Data entry OverridePriority of
        Some (VPriority priorityOverride) \<Rightarrow>
          (if isValidPriority priorityOverride then priorityOverride
           else DefaultPriority (config h))
      | _ \<Rightarrow> DefaultPriority (config h))"

text \<open>
  \<open>Fire\<close>: the fields of the request are computed in the order of the composite literal
  (\<open>alert\<close>), then the request goes to the SDK's \<open>Create\<close>, whose error \<open>Fire\<close>
  returns as it is. \<open>Create\<close> reads the request and the state; it is taken not to write
  to the arrays and variables of the hook.
\<close>

definition alert :: "(nat \<Rightarrow> nat \<Rightarrow> nat) \<Rightarrow> string list \<Rightarrow> 'team state \<Rightarrow> ('client, 'team) hook
    \<Rightarrow> Entry \<Rightarrow> CreateAlertRequest \<times> 'team state" where
  "alert growcap ks st h entry =
     (let a = alias_hook entry;
          d = description entry;
          (tm, st1) = teams st h;
          (tg, H2) = tags growcap (arrays st1) h entry;
          st2 = st1\<lparr>arrays := H2\<rparr>
      in (\<lparr>Message_r = Message entry, Alias = a, Description = d, Teams = tm, Tags = tg,
           Details = details H2 ks entry, Entity = entity h entry, Source = source h entry,
           Priority = priority h entry\<rparr>, st2))"

definition Fire :: "('client \<Rightarrow> CreateAlertRequest \<Rightarrow> 'team state \<Rightarrow> 'e option)
    \<Rightarrow> (nat \<Rightarrow> nat \<Rightarrow> nat) \<Rightarrow> string list \<Rightarrow> 'team state \<Rightarrow> ('client, 'team) hook \<Rightarrow> Entry
    \<Rightarrow> 'e option \<times> 'team state" where
  "Fire Create growcap ks st h entry =
     (let (req, st') = alert growcap ks st h entry
      in (Create (client h) req st', st'))"

section \<open>Concrete inputs\<close>

text \<open>
  A configuration as in the README, with two teams and one default tag whose backing
  array has room for two more elements; a client constructor that returns a client, as
  the SDK's does; log entries with and without override fields.
\<close>

definition growcap_double :: "nat \<Rightarrow> nat \<Rightarrow> nat" where
  "growcap_double oldcap needed = 2 * oldcap"


definition ex_heap :: heap where
  "ex_heap = [[''infra'', [], []], [''urgent'']]"

definition ex_tags :: slice where
  "ex_tags = \<lparr>ptr = Array 0, off = 0, len = 1, cap = 3\<rparr>"

definition ex_urgent :: slice where
  "ex_urgent = \<lparr>ptr = Array 1, off = 0, len = 1, cap = 1\<rparr>"

definition ex_config :: "string HookConfig" where
  "ex_config = \<lparr>DefaultTeams = Some [''team-a'', ''team-b''], DefaultTags = ex_tags,
     DefaultEntity = [], DefaultSource = ''svc-a'', DefaultPriority = ''P1''\<rparr>"

definition ex_unset :: "string HookConfig" where
  "ex_unset = \<lparr>DefaultTeams = None, DefaultTags = nil_slice,
     DefaultEntity = [], DefaultSource = [], DefaultPriority = []\<rparr>"

definition ex_validated :: "string HookConfig" where
  "ex_validated = \<lparr>DefaultTeams = Some [], DefaultTags = empty_literal,
     DefaultEntity = [], DefaultSource = [], DefaultPriority = ''P3''\<rparr>"

definition ex_critical :: "string HookConfig" where
  "ex_critical = ex_config\<lparr>DefaultPriority := ''critical''\<rparr>"

definition ex_hook :: "(string \<times> string, string) hook" where
  "ex_hook = \<lparr>client = (''my-api-token'', EndpointEU), config = ex_config\<rparr>"

definition ex_state :: "string state" where
  "ex_state = \<lparr>arrays = ex_heap, vars = Map.empty, nextvar = 0\<rparr>"

definition ex_plain :: Entry where
  "ex_plain = \<lparr>Message = ''disk full'', Data = Map.empty\<rparr>"

definition ex_error :: Entry where
  "ex_error = \<lparr>Message = ''disk full'',
     Data = [''error'' \<mapsto> VError ''disk at 99%'', ''ogh:alias'' \<mapsto> VString ''disk'',
             ''host'' \<mapsto> VString ''db1'']\<rparr>"

definition ex_error_keys :: "string list" where
  "ex_error_keys = [''host'', ''ogh:alias'', ''error'']"

definition ex_override :: Entry where
  "ex_override = \<lparr>Message = ''disk full'',
     Data = [''ogh:priority'' \<mapsto> VPriority ''P2'', ''ogh:tags'' \<mapsto> VStrings ex_urgent,
             ''ogh:alias'' \<mapsto> VString ''disk'']\<rparr>"

definition ex_malformed :: Entry where
  "ex_malformed = \<lparr>Message = ''disk full'',
     Data = [''ogh:priority'' \<mapsto> VInt 2, ''ogh:tags'' \<mapsto> VString ''urgent'',
             ''ogh:alias'' \<mapsto> VInt 7, ''error'' \<mapsto> VString ''disk at 99%'']\<rparr>"

section \<open>The request is made of the eight field functions\<close>

lemma arrays_teams: "arrays (snd (teams st h)) = arrays st"
  by (simp add: teams_def Let_def case_prod_beta)

lemma alert_fields:
  "Message_r (fst (alert g ks st h e)) = Message e"
  "Alias (fst (alert g ks st h e)) = alias_hook e"
  "Description (fst (alert g ks st h e)) = description e"
  "Teams (fst (alert g ks st h e)) = fst (teams st h)"
  "Tags (fst (alert g ks st h e)) = fst (tags g (arrays st) h e)"
  "Details (fst (alert g ks st h e)) = details (snd (tags g (arrays st) h e)) ks e"
  "Entity (fst (alert g ks st h e)) = entity h e"
  "Source (fst (alert g ks st h e)) = source h e"
  "Priority (fst (alert g ks st h e)) = priority h e"
  "arrays (snd (alert g ks st h e)) = snd (tags g (arrays st) h e)"
  by (simp_all add: alert_def Let_def case_prod_beta arrays_teams)

lemma Fire_returns_Create:
  "Fire Create g ks st h e =
     (Create (client h) (fst (alert g ks st h e)) (snd (alert g ks st h e)), snd (alert g ks st h e))"
  by (simp add: Fire_def case_prod_beta)

lemma isValidPriority_iff:
  "isValidPriority p \<longleftrightarrow> p \<in> {''P1'', ''P2'', ''P3'', ''P4'', ''P5''}"
  by (auto simp: isValidPriority_def P1_def P2_def P3_def P4_def P5_def)

lemmas override_keys =
  OverridePrefix_def OverrideAlias_def OverrideSource_def OverrideTags_def
  OverrideEntity_def OverridePriority_def

section \<open>Priority\<close>

text \<open>
  Claim C3. The priority of the request is the entry's \<open>ogh:priority\<close> field when that
  field is there, has the type \<open>alertsv2.Priority\<close> and is one of P1 to P5; in every
  other case (no field, another type, another value) it is the default priority of the
  configuration. \<open>priority\<close> returns a priority and nothing else, so a malformed override
  raises no error: the only error of \<open>Fire\<close> is the one \<open>Create\<close> returns.
\<close>

theorem priority_override_or_default:
  "(Data entry OverridePriority = Some (VPriority p) \<and> p \<in> {''P1'', ''P2'', ''P3'', ''P4'', ''P5''}
      \<longrightarrow> Priority (fst (alert g ks st h entry)) = p) \<and>
   (\<not> (\<exists>q. Data entry OverridePriority = Some (VPriority q) \<and> q \<in> {''P1'', ''P2'', ''P3'', ''P4'', ''P5''})
      \<longrightarrow> Priority (fst (alert g ks st h entry)) = DefaultPriority (config h))"
  unfolding alert_fields priority_def isValidPriority_iff [symmetric]
  by (auto split: option.splits val.splits)

theorem priority_override_or_default_witness:
  "Data ex_override OverridePriority = Some (VPriority ''P2'') \<and>
   Priority (fst (alert growcap_double [] ex_state ex_hook ex_override)) = ''P2'' \<and>
   Data ex_malformed OverridePriority = Some (VInt 2) \<and>
   Priority (fst (alert growcap_double [] ex_state ex_hook ex_malformed)) = ''P1''"
proof -
  have a: "Data ex_override OverridePriority = Some (VPriority ''P2'')"
    by (simp add: ex_override_def override_keys)
  have b: "Data ex_malformed OverridePriority = Some (VInt 2)"
    by (simp add: ex_malformed_def override_keys)
  have "Priority (fst (alert growcap_double [] ex_state ex_hook ex_override)) = ''P2''"
    using priority_override_or_default [of ex_override "''P2''" growcap_double "[]" ex_state ex_hook] a
    by simp
  moreover have "Priority (fst (alert growcap_double [] ex_state ex_hook ex_malformed)) = ''P1''"
    using priority_override_or_default [of ex_malformed "''P2''" growcap_double "[]" ex_state ex_hook] b
    by (simp add: ex_hook_def ex_config_def)
  ultimately show ?thesis using a b by simp
qed

section \<open>Description\<close>

text \<open>
  Claim C8. The description of the request is the message of the entry, followed by a
  newline and the text of the error when the field \<open>error\<close> holds a non-nil error
  value; when the field is absent or holds anything else it is the message alone.
\<close>

theorem description_message_and_error:
  "(Data entry ''error'' = Some (VError t)
      \<longrightarrow> Description (fst (alert g ks st h entry)) = Message entry @ ''\<newline>'' @ t) \<and>
   (\<not> (\<exists>t. Data entry ''error'' = Some (VError t))
      \<longrightarrow> Description (fst (alert g ks st h entry)) = Message entry)"
  unfolding alert_fields description_def
  by (auto split: option.splits val.splits)

theorem description_message_and_error_witness:
  "Data ex_error ''error'' = Some (VError ''disk at 99%'') \<and>
   Description (fst (alert growcap_double ex_error_keys ex_state ex_hook ex_error))
     = ''disk full\<newline>disk at 99%'' \<and>
   Data ex_malformed ''error'' = Some (VString ''disk at 99%'') \<and>
   Description (fst (alert growcap_double [] ex_state ex_hook ex_malformed)) = ''disk full''"
proof -
  have a: "Data ex_error ''error'' = Some (VError ''disk at 99%'')"
    by (simp add: ex_error_def)
  have b: "Data ex_malformed ''error'' = Some (VString ''disk at 99%'')"
    by (simp add: ex_malformed_def)
  have "Description (fst (alert growcap_double ex_error_keys ex_state ex_hook ex_error))
          = ''disk full\<newline>disk at 99%''"
    using description_message_and_error
            [of ex_error "''disk at 99%''" growcap_double ex_error_keys ex_state ex_hook] a
    by (simp add: ex_error_def)
  moreover have "Description (fst (alert growcap_double [] ex_state ex_hook ex_malformed)) = ''disk full''"
    using description_message_and_error [of ex_malformed "[]" growcap_double "[]" ex_state ex_hook] b
    by (simp add: ex_malformed_def)
  ultimately show ?thesis using a b by simp
qed

section \<open>Validation of the configuration\<close>


text \<open>
  Claim C6. When \<open>Validate\<close> succeeds, the default teams and the default tags of the
  configuration are not nil and the default priority is one of P1 to P5. A nil list has
  become the empty list, an unset priority has become P3, and everything that was set is
  as it was. \<open>Validate\<close> fails, with the error \<open>invalid priority\<close>, exactly when the
  priority was set to something else than P1 to P5.
\<close>

theorem Validate_sanitizes:
  fixes c :: "'team HookConfig" and err :: "'e error option"
  assumes "Validate c = (err, c')"
  shows "(err = None \<longrightarrow>
            DefaultTeams c' \<noteq> None \<and> \<not> is_nil (DefaultTags c') \<and>
            DefaultPriority c' \<in> {''P1'', ''P2'', ''P3'', ''P4'', ''P5''}) \<and>
         (DefaultTeams c = None \<longrightarrow> DefaultTeams c' = Some []) \<and>
         (DefaultTeams c \<noteq> None \<longrightarrow> DefaultTeams c' = DefaultTeams c) \<and>
         (is_nil (DefaultTags c) \<longrightarrow> DefaultTags c' = empty_literal \<and> elems H (DefaultTags c') = []) \<and>
         (\<not> is_nil (DefaultTags c) \<longrightarrow> DefaultTags c' = DefaultTags c) \<and>
         (DefaultPriority c = [] \<longrightarrow> DefaultPriority c' = ''P3'') \<and>
         (DefaultPriority c \<noteq> [] \<longrightarrow> DefaultPriority c' = DefaultPriority c) \<and>
         (err \<noteq> None \<longleftrightarrow>
            DefaultPriority c \<noteq> [] \<and> DefaultPriority c \<notin> {''P1'', ''P2'', ''P3'', ''P4'', ''P5''}) \<and>
         (err \<noteq> None \<longrightarrow> err = Some (Errorf ''invalid priority''))"
  using assms
  unfolding isValidPriority_iff [symmetric]
  by (auto simp: Validate_def Let_def is_nil_def empty_literal_def elems_def isValidPriority_def
        P1_def P2_def P3_def P4_def P5_def split: if_splits)

theorem Validate_sanitizes_witness:
  "Validate ex_unset = (None :: unit error option, ex_validated) \<and>
   DefaultTeams ex_validated = Some [] \<and>
   DefaultTags ex_validated = empty_literal \<and> elems ex_heap (DefaultTags ex_validated) = [] \<and>
   DefaultPriority ex_validated = ''P3'' \<and>
   Validate ex_critical = (Some (Errorf ''invalid priority'') :: unit error option, ex_critical)"
proof -
  have a: "Validate ex_unset = (None :: unit error option, ex_validated)"
    by (simp add: Validate_def ex_unset_def ex_validated_def nil_slice_def is_nil_def
          isValidPriority_def P1_def P2_def P3_def P4_def P5_def)
  have b: "Validate ex_critical = (Some (Errorf ''invalid priority'') :: unit error option, ex_critical)"
    by (simp add: Validate_def ex_critical_def ex_config_def ex_tags_def is_nil_def
          isValidPriority_def P1_def P2_def P3_def P4_def P5_def)
  have n: "DefaultTeams ex_unset = None" "is_nil (DefaultTags ex_unset)" "DefaultPriority ex_unset = []"
    by (simp_all add: ex_unset_def nil_slice_def is_nil_def)
  from Validate_sanitizes [OF a, of ex_heap] n Validate_sanitizes [OF b, of ex_heap]
  show ?thesis using a b by (simp add: elems_def empty_literal_def)
qed

section \<open>Construction of the hook\<close>



section \<open>Alias\<close>

text \<open>What \<open>FormatUint\<close> in base 16 makes of a 32-bit value.\<close>

lemma digits_hex: "k < 16 \<Longrightarrow> digits ! k \<in> set ''0123456789abcdef''"
proof -
  assume "k < 16"
  then have "k \<in> {0,1,2,3,4,5,6,7,8,9,10,11,12,13,14,15}" by simp arith
  then show ?thesis
    by (auto simp: digits_def)
qed

lemma formatBits_hex: "set (formatBits u 16) \<subseteq> set ''0123456789abcdef''"
proof (induction u "16::nat" rule: formatBits.induct)
  case (1 u)
  show ?case
  proof (cases "u < 16")
    case True
    then show ?thesis
      using digits_hex [of u] by (subst formatBits.simps) simp
  next
    case False
    have m: "u mod 16 < 16" by simp
    from False 1 have "set (formatBits (u div 16) 16) \<subseteq> set ''0123456789abcdef''"
      by simp
    with False digits_hex [OF m] show ?thesis
      by (subst formatBits.simps) simp
  qed
qed

lemma formatBits_nonempty: "formatBits u b \<noteq> []"
  by (subst formatBits.simps) simp

lemma formatBits_length: "u < 16 ^ Suc n \<Longrightarrow> length (formatBits u 16) \<le> Suc n"
proof (induction n arbitrary: u)
  case 0
  then show ?case by (subst formatBits.simps) simp
next
  case (Suc n)
  show ?case
  proof (cases "u < 16")
    case True
    then show ?thesis by (subst formatBits.simps) simp
  next
    case False
    from Suc.prems have "u div 16 < 16 ^ Suc n"
      by (simp add: less_mult_imp_div_less mult.commute)
    then have "length (formatBits (u div 16) 16) \<le> Suc n" by (rule Suc.IH)
    with False show ?thesis by (subst formatBits.simps) simp
  qed
qed

lemma FormatUint_uint32:
  fixes w :: uint32
  shows "set (FormatUint (unat w) 16) \<subseteq> set ''0123456789abcdef''"
    and "FormatUint (unat w) 16 \<noteq> []"
    and "length (FormatUint (unat w) 16) \<le> 8"
proof -
  have "unat w < 2 ^ 32" using unsigned_less [of w] by simp
  then have "unat w < 16 ^ Suc 7" by simp
  then have "length (formatBits (unat w) 16) \<le> Suc 7" by (rule formatBits_length)
  then show "length (FormatUint (unat w) 16) \<le> 8" by (simp add: FormatUint_def)
  show "set (FormatUint (unat w) 16) \<subseteq> set ''0123456789abcdef''"
    unfolding FormatUint_def by (rule formatBits_hex)
  show "FormatUint (unat w) 16 \<noteq> []"
    unfolding FormatUint_def by (rule formatBits_nonempty)
qed

text \<open>
  The checksum on two inputs, one table step after the other: the check value of CRC-32
  (the checksum of the digits \<open>123456789\<close> is \<open>cbf43926\<close>), and the message
  \<open>disk full\<close>.
\<close>

lemma funpow_8: "(f ^^ 8) x = f (f (f (f (f (f (f (f x)))))))"
  by (simp add: eval_nat_numeral)

lemma minus_one_uint32: "(- 1 :: uint32) = 0xFFFFFFFF"
  by simp

lemma crc_check_0: "update_byte (simpleMakeTable IEEE) 4294967295 49 = 2082672712"
  by (simp add: update_byte_def simpleMakeTable_def IEEE_def crc_shift_def funpow_8)

lemma crc_check_1: "update_byte (simpleMakeTable IEEE) 2082672712 50 = 2964110130"
  by (simp add: update_byte_def simpleMakeTable_def IEEE_def crc_shift_def funpow_8)

lemma crc_check_2: "update_byte (simpleMakeTable IEEE) 2964110130 51 = 2008521773"
  by (simp add: update_byte_def simpleMakeTable_def IEEE_def crc_shift_def funpow_8)

lemma crc_check_3: "update_byte (simpleMakeTable IEEE) 2008521773 52 = 1679564636"
  by (simp add: update_byte_def simpleMakeTable_def IEEE_def crc_shift_def funpow_8)

lemma crc_check_4: "update_byte (simpleMakeTable IEEE) 1679564636 53 = 873121251"
  by (simp add: update_byte_def simpleMakeTable_def IEEE_def crc_shift_def funpow_8)

lemma crc_check_5: "update_byte (simpleMakeTable IEEE) 873121251 54 = 4136447134"
  by (simp add: update_byte_def simpleMakeTable_def IEEE_def crc_shift_def funpow_8)

lemma crc_check_6: "update_byte (simpleMakeTable IEEE) 4136447134 55 = 2952566368"
  by (simp add: update_byte_def simpleMakeTable_def IEEE_def crc_shift_def funpow_8)

lemma crc_check_7: "update_byte (simpleMakeTable IEEE) 2952566368 56 = 1696539984"
  by (simp add: update_byte_def simpleMakeTable_def IEEE_def crc_shift_def funpow_8)

lemma crc_check_8: "update_byte (simpleMakeTable IEEE) 1696539984 57 = 873187033"
  by (simp add: update_byte_def simpleMakeTable_def IEEE_def crc_shift_def funpow_8)

lemma ChecksumIEEE_check_value: "ChecksumIEEE (bytes ''123456789'') = 0xcbf43926"
  by (simp add: ChecksumIEEE_def simpleUpdate_def bytes_def minus_one_uint32 crc_check_0 crc_check_1 crc_check_2 crc_check_3 crc_check_4 crc_check_5 crc_check_6 crc_check_7 crc_check_8)

lemma crc_disk_full_0: "update_byte (simpleMakeTable IEEE) 4294967295 100 = 1730327859"
  by (simp add: update_byte_def simpleMakeTable_def IEEE_def crc_shift_def funpow_8)

lemma crc_disk_full_1: "update_byte (simpleMakeTable IEEE) 1730327859 105 = 2346293855"
  by (simp add: update_byte_def simpleMakeTable_def IEEE_def crc_shift_def funpow_8)

lemma crc_disk_full_2: "update_byte (simpleMakeTable IEEE) 2346293855 115 = 844346745"
  by (simp add: update_byte_def simpleMakeTable_def IEEE_def crc_shift_def funpow_8)

lemma crc_disk_full_3: "update_byte (simpleMakeTable IEEE) 844346745 107 = 4085981949"
  by (simp add: update_byte_def simpleMakeTable_def IEEE_def crc_shift_def funpow_8)

lemma crc_disk_full_4: "update_byte (simpleMakeTable IEEE) 4085981949 32 = 4170261835"
  by (simp add: update_byte_def simpleMakeTable_def IEEE_def crc_shift_def funpow_8)

lemma crc_disk_full_5: "update_byte (simpleMakeTable IEEE) 4170261835 102 = 1160236368"
  by (simp add: update_byte_def simpleMakeTable_def IEEE_def crc_shift_def funpow_8)

lemma crc_disk_full_6: "update_byte (simpleMakeTable IEEE) 1160236368 117 = 1262613386"
  by (simp add: update_byte_def simpleMakeTable_def IEEE_def crc_shift_def funpow_8)

lemma crc_disk_full_7: "update_byte (simpleMakeTable IEEE) 1262613386 108 = 1226966718"
  by (simp add: update_byte_def simpleMakeTable_def IEEE_def crc_shift_def funpow_8)

lemma crc_disk_full_8: "update_byte (simpleMakeTable IEEE) 1226966718 108 = 1754567166"
  by (simp add: update_byte_def simpleMakeTable_def IEEE_def crc_shift_def funpow_8)

lemma ChecksumIEEE_disk_full: "ChecksumIEEE (bytes ''disk full'') = 0x976b6e01"
  by (simp add: ChecksumIEEE_def simpleUpdate_def bytes_def minus_one_uint32 crc_disk_full_0 crc_disk_full_1 crc_disk_full_2 crc_disk_full_3 crc_disk_full_4 crc_disk_full_5 crc_disk_full_6 crc_disk_full_7 crc_disk_full_8)

lemma FormatUint_disk_full: "FormatUint 0x976b6e01 16 = ''976b6e01''"
  by (simp add: FormatUint_def formatBits.simps digits_def)

text \<open>
  Claim C2. When the field \<open>ogh:alias\<close> of the entry holds a string, the alias of the
  request is that string as it is. Otherwise the alias is the CRC-32 checksum (IEEE
  polynomial) of the bytes of the message, written in base 16 with lowercase digits: one
  to eight characters out of \<open>0123456789abcdef\<close>. Two entries without override and with
  the same message get the same alias.
\<close>

theorem alias_override_or_checksum:
  "(Data entry OverrideAlias = Some (VString s)
      \<longrightarrow> Alias (fst (alert g ks st h entry)) = s) \<and>
   (\<not> (\<exists>s. Data entry OverrideAlias = Some (VString s))
      \<longrightarrow> Alias (fst (alert g ks st h entry))
            = FormatUint (unat (ChecksumIEEE (bytes (Message entry)))) 16 \<and>
          set (Alias (fst (alert g ks st h entry))) \<subseteq> set ''0123456789abcdef'' \<and>
          Alias (fst (alert g ks st h entry)) \<noteq> [] \<and>
          length (Alias (fst (alert g ks st h entry))) \<le> 8) \<and>
   (\<not> (\<exists>s. Data entry OverrideAlias = Some (VString s)) \<and>
    \<not> (\<exists>s. Data entry' OverrideAlias = Some (VString s)) \<and>
    Message entry' = Message entry
      \<longrightarrow> Alias (fst (alert g' ks' st' h' entry')) = Alias (fst (alert g ks st h entry)))"
proof -
  have a: "Data e OverrideAlias = Some (VString s) \<Longrightarrow> alias_hook e = s" for e s
    by (simp add: alias_hook_def)
  have b: "\<not> (\<exists>s. Data e OverrideAlias = Some (VString s))
      \<Longrightarrow> alias_hook e = FormatUint (unat (ChecksumIEEE (bytes (Message e)))) 16" for e
    by (auto simp: alias_hook_def split: option.splits val.splits)
  show ?thesis
    unfolding alert_fields using a [of entry s] b [of entry] b [of entry']
      FormatUint_uint32 [of "ChecksumIEEE (bytes (Message entry))"]
    by auto
qed

theorem alias_override_or_checksum_witness:
  "Data ex_override OverrideAlias = Some (VString ''disk'') \<and>
   Alias (fst (alert growcap_double [] ex_state ex_hook ex_override)) = ''disk'' \<and>
   Data ex_plain OverrideAlias = None \<and>
   Alias (fst (alert growcap_double [] ex_state ex_hook ex_plain)) = ''976b6e01'' \<and>
   Data ex_malformed OverrideAlias = Some (VInt 7) \<and>
   Alias (fst (alert growcap_double [] ex_state ex_hook ex_malformed)) = ''976b6e01''"
proof -
  have a: "Data ex_override OverrideAlias = Some (VString ''disk'')"
    by (simp add: ex_override_def override_keys)
  have b: "Data ex_plain OverrideAlias = None" "Message ex_plain = ''disk full''"
    by (simp_all add: ex_plain_def)
  have c: "Data ex_malformed OverrideAlias = Some (VInt 7)" "Message ex_malformed = ''disk full''"
    by (simp_all add: ex_malformed_def override_keys)
  have "Alias (fst (alert growcap_double [] ex_state ex_hook ex_override)) = ''disk''"
    using alias_override_or_checksum
            [of ex_override "''disk''" growcap_double "[]" ex_state ex_hook
               ex_override growcap_double "[]" ex_state ex_hook] a
    by simp
  moreover
  have "Alias (fst (alert growcap_double [] ex_state ex_hook ex_plain)) = ''976b6e01''"
    using alias_override_or_checksum
            [of ex_plain "[]" growcap_double "[]" ex_state ex_hook
               ex_plain growcap_double "[]" ex_state ex_hook] b
    by (simp add: ChecksumIEEE_disk_full FormatUint_disk_full)
  moreover
  have "Alias (fst (alert growcap_double [] ex_state ex_hook ex_malformed)) = ''976b6e01''"
    using alias_override_or_checksum
            [of ex_malformed "[]" growcap_double "[]" ex_state ex_hook
               ex_malformed growcap_double "[]" ex_state ex_hook] c
    by (simp add: ChecksumIEEE_disk_full FormatUint_disk_full)
  ultimately show ?thesis using a b c by simp
qed

section \<open>Details\<close>

lemma details_loop_eq:
  "details_loop H entry ks m =
     (\<lambda>k. if k \<in> set ks \<and> \<not> HasPrefix k OverridePrefix \<and> Data entry k \<noteq> None
          then map_option (Sprintf_v H) (Data entry k) else m k)"
proof (induction ks arbitrary: m)
  case Nil
  show ?case by simp
next
  case (Cons key ks)
  show ?case
    by (cases "Data entry key") (auto simp: Cons.IH fun_eq_iff)
qed

lemma details_eq:
  assumes "set ks = dom (Data entry)"
  shows "details H ks entry =
     (\<lambda>k. if HasPrefix k OverridePrefix then None else map_option (Sprintf_v H) (Data entry k))"
  using assms by (auto simp: details_def details_loop_eq fun_eq_iff dom_def)

lemma HasPrefix_ogh: "HasPrefix k OverridePrefix \<longleftrightarrow> take 4 k = ''ogh:''"
proof -
  have l: "length ''ogh:'' = 4" by simp
  have "4 \<le> length k" if "take 4 k = ''ogh:''"
  proof -
    from that have "length (take 4 k) = 4" by simp
    then show ?thesis by simp
  qed
  then show ?thesis
    unfolding HasPrefix_def OverridePrefix_def l by blast
qed

lemma ex_error_keys_dom: "set ex_error_keys = dom (Data ex_error)"
  by (auto simp: ex_error_keys_def ex_error_def)

text \<open>
  Claim C5. Whatever the order in which the loop visits the fields, the details of the
  request have exactly the keys of the entry that do not start with \<open>ogh:\<close>, each
  with the \<open>%v\<close> rendering of its value (a slice is rendered as the heap has it when
  \<open>details\<close> runs, after \<open>tags\<close>). No key of the details starts with \<open>ogh:\<close>.
\<close>

theorem details_without_override_keys:
  assumes "set ks = dom (Data entry)"
  shows "dom (Details (fst (alert g ks st h entry)))
           = {k \<in> dom (Data entry). \<not> HasPrefix k OverridePrefix} \<and>
         (\<forall>k v. Data entry k = Some v \<and> \<not> HasPrefix k OverridePrefix
            \<longrightarrow> Details (fst (alert g ks st h entry)) k
                  = Some (Sprintf_v (arrays (snd (alert g ks st h entry))) v)) \<and>
         (\<forall>k \<in> dom (Details (fst (alert g ks st h entry))). take 4 k \<noteq> ''ogh:'')"
  unfolding alert_fields details_eq [OF assms] HasPrefix_ogh
  by (auto split: if_splits)

theorem details_without_override_keys_witness:
  "set ex_error_keys = dom (Data ex_error) \<and>
   Data ex_error ''ogh:alias'' = Some (VString ''disk'') \<and>
   dom (Details (fst (alert growcap_double ex_error_keys ex_state ex_hook ex_error)))
     = {''host'', ''error''} \<and>
   Details (fst (alert growcap_double ex_error_keys ex_state ex_hook ex_error)) ''host''
     = Some ''db1''"
proof -
  have d: "{k \<in> dom (Data ex_error). \<not> HasPrefix k OverridePrefix} = {''host'', ''error''}"
    by (auto simp: ex_error_def HasPrefix_ogh)
  have v: "Data ex_error ''host'' = Some (VString ''db1'')" "\<not> HasPrefix ''host'' OverridePrefix"
    "Data ex_error ''ogh:alias'' = Some (VString ''disk'')"
    by (simp_all add: ex_error_def HasPrefix_ogh)
  from details_without_override_keys
         [OF ex_error_keys_dom, of growcap_double ex_state ex_hook] d v
  show ?thesis using ex_error_keys_dom by simp
qed

text \<open>
  Claim C10. The key \<open>error\<close> does not start with \<open>ogh:\<close>, so an entry that has the
  field \<open>error\<close> has it in the details of the request too, with the rendering of its
  value. An error value is therefore in the description and in the details.
\<close>

theorem error_field_in_details:
  assumes "set ks = dom (Data entry)" and "Data entry ''error'' = Some v"
  shows "Details (fst (alert g ks st h entry)) ''error''
           = Some (Sprintf_v (arrays (snd (alert g ks st h entry))) v) \<and>
         (\<forall>t. v = VError t
            \<longrightarrow> Details (fst (alert g ks st h entry)) ''error'' = Some t \<and>
                Description (fst (alert g ks st h entry)) = Message entry @ ''\<newline>'' @ t)"
  unfolding alert_fields details_eq [OF assms(1)] HasPrefix_ogh
  using assms(2) by (simp add: description_def)

theorem error_field_in_details_witness:
  "set ex_error_keys = dom (Data ex_error) \<and>
   Data ex_error ''error'' = Some (VError ''disk at 99%'') \<and>
   Details (fst (alert growcap_double ex_error_keys ex_state ex_hook ex_error)) ''error''
     = Some ''disk at 99%'' \<and>
   Description (fst (alert growcap_double ex_error_keys ex_state ex_hook ex_error))
     = ''disk full\<newline>disk at 99%''"
proof -
  have v: "Data ex_error ''error'' = Some (VError ''disk at 99%'')"
    "Message ex_error = ''disk full''"
    by (simp_all add: ex_error_def)
  from error_field_in_details [OF ex_error_keys_dom v(1), of growcap_double ex_state ex_hook] v
  show ?thesis using ex_error_keys_dom by simp
qed

section \<open>Teams\<close>

lemma teams_loop_eq:
  "teams_loop p ts acc V =
     (acc @ replicate (length ts) p, if ts = [] then V else V(p \<mapsto> last ts))"
  by (induction ts arbitrary: acc V) (auto simp: replicate_app_Cons_same)

lemma vars_alert: "vars (snd (alert g ks st h e)) = vars (snd (teams st h))"
  by (simp add: alert_def Let_def case_prod_beta)

text \<open>
  The request has as many recipients as the configuration has default teams, and no
  field of the entry has a part in them. All recipients are the one address of the loop
  variable, which holds the last team when the loop is over.
\<close>

lemma teams_length:
  "length (Teams (fst (alert g ks st h e)))
     = length (case DefaultTeams (config h) of None \<Rightarrow> [] | Some ts \<Rightarrow> ts)"
  by (simp add: alert_fields teams_def Let_def case_prod_beta teams_loop_eq)

lemma teams_denote_last:
  assumes "DefaultTeams (config h) = Some ts" and "ts \<noteq> []"
  shows "map (vars (snd (alert g ks st h e))) (Teams (fst (alert g ks st h e)))
           = replicate (length ts) (Some (last ts))"
  using assms
  by (simp add: alert_fields vars_alert teams_def Let_def case_prod_beta teams_loop_eq)

text \<open>
  Claim C9 asks that the i-th recipient denotes the i-th default team. With the two
  default teams \<open>team-a\<close> and \<open>team-b\<close> both recipients of the request denote
  \<open>team-b\<close>.
\<close>

theorem teams_recipients_all_last_team:
  "DefaultTeams (config ex_hook) = Some [''team-a'', ''team-b''] \<and>
   map (vars (snd (alert growcap_double [] ex_state ex_hook ex_plain)))
       (Teams (fst (alert growcap_double [] ex_state ex_hook ex_plain)))
     = [Some ''team-b'', Some ''team-b'']"
  by (simp add: alert_fields vars_alert teams_def Let_def ex_hook_def ex_config_def ex_state_def)

section \<open>Tags\<close>

subsection \<open>What \<open>append\<close> does to the heap\<close>

lemma elems_write_at:
  assumes "i + n \<le> length xs"
  shows "take (n + length vs) (drop i (write_at xs (i + n) vs)) = take n (drop i xs) @ vs"
    and "take n (drop i (write_at xs (i + n) vs)) = take n (drop i xs)"
  using assms by (simp_all add: write_at_def drop_take)

lemma length_elems: "wf_slice H s \<Longrightarrow> length (elems H s) = len s"
  by (auto simp: wf_slice_def elems_def split: pointer.splits)

text \<open>The slice that \<open>append\<close> returns has the old elements followed by the new ones.\<close>

lemma go_append_elems:
  assumes "wf_slice H s" and "go_append g H s vs = (r, H')"
  shows "elems H' r = elems H s @ vs"
proof (cases "len s + length vs \<le> cap s")
  case False
  with assms(2)
  have r: "r = \<lparr>ptr = Array (length H), off = 0, len = len s + length vs,
                cap = max (len s + length vs) (g (cap s) (len s + length vs))\<rparr>"
    and H': "H' = H @ [elems H s @ vs @ replicate (cap r - (len s + length vs)) []]"
    by (auto simp: go_append_def Let_def)
  show ?thesis
    using length_elems [OF assms(1)] by (simp add: r H' elems_def)
next
  case True
  show ?thesis
  proof (cases "ptr s")
    case (Array a)
    with assms(1) have b: "a < length H" "off s + len s \<le> length (H ! a)"
      by (auto simp: wf_slice_def)
    from True Array assms(2)
    have r: "r = s\<lparr>len := len s + length vs\<rparr>"
      and H': "H' = H[a := write_at (H ! a) (off s + len s) vs]"
      by (auto simp: go_append_def Let_def)
    show ?thesis
      using b elems_write_at(1) [OF b(2), of vs]
      by (simp add: r H' elems_def Array)
  next
    case Null
    with assms True have "vs = []" "r = s" "H' = H"
      by (auto simp: go_append_def Let_def wf_slice_def)
    with Null show ?thesis by (simp add: elems_def)
  next
    case Zerobase
    with assms True have "vs = []" "r = s" "H' = H"
      by (auto simp: go_append_def Let_def wf_slice_def)
    with Zerobase show ?thesis by (simp add: elems_def)
  qed
qed

text \<open>
  The slice that \<open>append\<close> was given still has its elements afterwards: in place,
  \<open>append\<close> writes behind them only.
\<close>

lemma go_append_keeps:
  assumes "wf_slice H s" and "go_append g H s vs = (r, H')"
  shows "elems H' s = elems H s"
proof (cases "len s + length vs \<le> cap s")
  case False
  with assms show ?thesis
    by (auto simp: go_append_def Let_def elems_def wf_slice_def nth_append split: pointer.splits)
next
  case True
  show ?thesis
  proof (cases "ptr s")
    case (Array a)
    with assms(1) have b: "a < length H" "off s + len s \<le> length (H ! a)"
      by (auto simp: wf_slice_def)
    from True Array assms(2)
    have H': "H' = H[a := write_at (H ! a) (off s + len s) vs]"
      by (auto simp: go_append_def Let_def)
    show ?thesis
      using b elems_write_at(2) [OF b(2), of vs]
      by (simp add: H' elems_def Array)
  qed (simp_all add: elems_def)
qed

subsection \<open>\<open>hook.tags\<close>\<close>

lemma tags_override:
  assumes "wf_slice H (DefaultTags (config h))"
    and "Data entry OverrideTags = Some (VStrings ov)"
  shows "elems (snd (tags g H h entry)) (fst (tags g H h entry))
           = elems H (DefaultTags (config h)) @ elems H ov"
    and "elems (snd (tags g H h entry)) (DefaultTags (config h)) = elems H (DefaultTags (config h))"
proof -
  obtain r H' where e: "go_append g H (DefaultTags (config h)) (elems H ov) = (r, H')"
    by (cases "go_append g H (DefaultTags (config h)) (elems H ov)")
  with assms(2) have t: "tags g H h entry = (r, H')"
    by (simp add: tags_def)
  show "elems (snd (tags g H h entry)) (fst (tags g H h entry))
           = elems H (DefaultTags (config h)) @ elems H ov"
    using go_append_elems [OF assms(1) e] by (simp add: t)
  show "elems (snd (tags g H h entry)) (DefaultTags (config h)) = elems H (DefaultTags (config h))"
    using go_append_keeps [OF assms(1) e] by (simp add: t)
qed

lemma tags_default:
  assumes "\<not> (\<exists>ov. Data entry OverrideTags = Some (VStrings ov))"
  shows "tags g H h entry = (DefaultTags (config h), H)"
  using assms by (auto simp: tags_def Let_def split: option.splits val.splits)

lemma ex_tags_facts:
  "wf_slice (arrays ex_state) (DefaultTags (config ex_hook))"
  "elems (arrays ex_state) (DefaultTags (config ex_hook)) = [''infra'']"
  "elems (arrays ex_state) ex_urgent = [''urgent'']"
  "Data ex_override OverrideTags = Some (VStrings ex_urgent)"
  "Data ex_malformed OverrideTags = Some (VString ''urgent'')"
  "Data ex_plain OverrideTags = None"
  by (simp_all add: wf_slice_def elems_def ex_state_def ex_hook_def ex_config_def ex_tags_def
        ex_heap_def ex_urgent_def ex_override_def ex_malformed_def ex_plain_def override_keys)

text \<open>
  In the example the first call with an override writes into the backing array of the
  default tags, behind their one element.
\<close>

lemma ex_override_writes_in_place:
  "arrays (snd (alert growcap_double [] ex_state ex_hook ex_override))
     = [[''infra'', ''urgent'', []], [''urgent'']]"
  by (simp add: alert_fields tags_def go_append_def write_at_def elems_def Let_def
        ex_state_def ex_hook_def ex_config_def ex_tags_def ex_heap_def ex_urgent_def
        ex_override_def override_keys)

text \<open>
  Claim C4. When the field \<open>ogh:tags\<close> of the entry holds a \<open>[]string\<close>, the tags of
  the request are the default tags of the configuration followed by the tags of the
  field, in their order. Without such a field (absent, or of another type) the tags of
  the request are the default tags and the heap is as it was.
\<close>

theorem tags_default_then_override:
  assumes "wf_slice (arrays st) (DefaultTags (config h))"
  shows "(Data entry OverrideTags = Some (VStrings ov)
            \<longrightarrow> elems (arrays (snd (alert g ks st h entry))) (Tags (fst (alert g ks st h entry)))
                  = elems (arrays st) (DefaultTags (config h)) @ elems (arrays st) ov) \<and>
         (\<not> (\<exists>ov. Data entry OverrideTags = Some (VStrings ov))
            \<longrightarrow> Tags (fst (alert g ks st h entry)) = DefaultTags (config h) \<and>
                arrays (snd (alert g ks st h entry)) = arrays st \<and>
                elems (arrays (snd (alert g ks st h entry))) (Tags (fst (alert g ks st h entry)))
                  = elems (arrays st) (DefaultTags (config h)))"
  unfolding alert_fields
  using tags_override(1) [OF assms, of entry ov g] tags_default [of entry g "arrays st" h]
  by auto

theorem tags_default_then_override_witness:
  "wf_slice (arrays ex_state) (DefaultTags (config ex_hook)) \<and>
   Data ex_override OverrideTags = Some (VStrings ex_urgent) \<and>
   elems (arrays (snd (alert growcap_double [] ex_state ex_hook ex_override)))
         (Tags (fst (alert growcap_double [] ex_state ex_hook ex_override)))
     = [''infra'', ''urgent''] \<and>
   Data ex_malformed OverrideTags = Some (VString ''urgent'') \<and>
   elems (arrays (snd (alert growcap_double [] ex_state ex_hook ex_malformed)))
         (Tags (fst (alert growcap_double [] ex_state ex_hook ex_malformed)))
     = [''infra'']"
proof -
  have "elems (arrays (snd (alert growcap_double [] ex_state ex_hook ex_override)))
         (Tags (fst (alert growcap_double [] ex_state ex_hook ex_override)))
     = [''infra'', ''urgent'']"
    using tags_default_then_override
            [OF ex_tags_facts(1), of ex_override ex_urgent growcap_double "[]"] ex_tags_facts
    by simp
  moreover
  have "elems (arrays (snd (alert growcap_double [] ex_state ex_hook ex_malformed)))
         (Tags (fst (alert growcap_double [] ex_state ex_hook ex_malformed)))
     = [''infra'']"
    using tags_default_then_override
            [OF ex_tags_facts(1), of ex_malformed ex_urgent growcap_double "[]"] ex_tags_facts
    by simp
  ultimately show ?thesis using ex_tags_facts by simp
qed

text \<open>
  Claim C1. Two calls one after the other on the same hook: the first entry has a
  \<open>[]string\<close> under \<open>ogh:tags\<close>, the second has none. The tags of the second request
  are the slice of the configuration, and its elements are the default tags as they
  were before the first call; the first call has left the elements of the default tags
  as they were. (\<open>Fire\<close> hands the request of \<open>alert\<close> to \<open>Create\<close> and returns the
  state of \<open>alert\<close>.)
\<close>

theorem tags_override_leaves_default_tags:
  assumes "wf_slice (arrays st) (DefaultTags (config h))"
    and "Data e1 OverrideTags = Some (VStrings ov)"
    and "\<not> (\<exists>ov'. Data e2 OverrideTags = Some (VStrings ov'))"
    and "alert g ks1 st h e1 = (req1, st1)"
    and "alert g ks2 st1 h e2 = (req2, st2)"
  shows "Tags req2 = DefaultTags (config h) \<and>
         elems (arrays st2) (Tags req2) = elems (arrays st) (DefaultTags (config h)) \<and>
         elems (arrays st1) (DefaultTags (config h)) = elems (arrays st) (DefaultTags (config h))"
proof -
  have a1: "arrays st1 = snd (tags g (arrays st) h e1)"
    using alert_fields(10) [of g ks1 st h e1] assms(4) by simp
  have keep: "elems (arrays st1) (DefaultTags (config h)) = elems (arrays st) (DefaultTags (config h))"
    unfolding a1 by (rule tags_override(2) [OF assms(1,2)])
  have t2: "tags g (arrays st1) h e2 = (DefaultTags (config h), arrays st1)"
    by (rule tags_default [OF assms(3)])
  have "Tags req2 = DefaultTags (config h)"
    using alert_fields(5) [of g ks2 st1 h e2] assms(5) t2 by simp
  moreover have "arrays st2 = arrays st1"
    using alert_fields(10) [of g ks2 st1 h e2] assms(5) t2 by simp
  ultimately show ?thesis using keep by simp
qed

theorem tags_override_leaves_default_tags_witness:
  "wf_slice (arrays ex_state) (DefaultTags (config ex_hook)) \<and>
   Data ex_override OverrideTags = Some (VStrings ex_urgent) \<and>
   Data ex_plain OverrideTags = None \<and>
   arrays (snd (alert growcap_double [] ex_state ex_hook ex_override))
     = [[''infra'', ''urgent'', []], [''urgent'']] \<and>
   elems (arrays (snd (alert growcap_double []
                         (snd (alert growcap_double [] ex_state ex_hook ex_override))
                         ex_hook ex_plain)))
         (Tags (fst (alert growcap_double []
                         (snd (alert growcap_double [] ex_state ex_hook ex_override))
                         ex_hook ex_plain)))
     = [''infra'']"
proof -
  have n: "\<not> (\<exists>ov'. Data ex_plain OverrideTags = Some (VStrings ov'))"
    by (simp add: ex_tags_facts)
  have p: "alert g ks st h e = (fst (alert g ks st h e), snd (alert g ks st h e))"
    for g ks and st :: "string state" and h :: "(string \<times> string, string) hook" and e
    by simp
  from tags_override_leaves_default_tags
         [OF ex_tags_facts(1) ex_tags_facts(4) n
             p [of growcap_double "[]" ex_state ex_hook ex_override]
             p [of growcap_double "[]" "snd (alert growcap_double [] ex_state ex_hook ex_override)"
                  ex_hook ex_plain]]
  have "elems (arrays (snd (alert growcap_double []
                         (snd (alert growcap_double [] ex_state ex_hook ex_override))
                         ex_hook ex_plain)))
         (Tags (fst (alert growcap_double []
                         (snd (alert growcap_double [] ex_state ex_hook ex_override))
                         ex_hook ex_plain)))
     = elems (arrays ex_state) (DefaultTags (config ex_hook))"
    by blast
  then show ?thesis using ex_tags_facts ex_override_writes_in_place by simp
qed

end
